theory Spec2Isabelle
  imports Complex_Main "HOL-Library.Multiset"
begin

section \<open>Coverage artifact\<close>

text \<open>
  The coverage artifact (\<open>coverage/coverage-final.json\<close>) is a JSON object from file
  path to an object with the fields \<open>s\<close> (statement id to hit count), \<open>b\<close> (branch id to
  an array of hit counts) and \<open>f\<close> (function id to hit count). A JSON object is modelled
  as the association list that \<open>Object.keys\<close> / \<open>Object.entries\<close> enumerates; a field that is
  absent is \<open>None\<close>, which is what \<open>data.s || {}\<close> and \<open>base[f]?.s ?? {}\<close> test. Hit counts
  are integers (JavaScript numbers inside the exactly representable range).
\<close>

record file_coverage =
  fc_s :: "(string \<times> int) list option"
  fc_b :: "(string \<times> int list) list option"
  fc_f :: "(string \<times> int) list option"

type_synonym coverage = "(string \<times> file_coverage) list"

text \<open>\<open>x || {}\<close> on an optional object: its entries, none when the field is absent.\<close>

definition entries :: "('k \<times> 'v) list option \<Rightarrow> ('k \<times> 'v) list" where
  "entries obj = (case obj of None \<Rightarrow> [] | Some kvs \<Rightarrow> kvs)"

section \<open>Node's path module\<close>

text \<open>
  The tools call Node's \<open>path\<close> module, which is not part of the repository. The model
  takes the functions it uses as a parameter, so every theorem holds for any behaviour
  of that module.
\<close>

record path_ops =
  isAbsolute :: "string \<Rightarrow> bool"
  join :: "string list \<Rightarrow> string"
  extname :: "string \<Rightarrow> string"
  relative :: "string \<Rightarrow> string \<Rightarrow> string"
  basename :: "string \<Rightarrow> string \<Rightarrow> string"
  dirname :: "string \<Rightarrow> string"

text \<open>
  An instance of the parameter, for running the model on concrete inputs: Node's POSIX
  functions on slash-separated paths that are already normalised (no \<open>.\<close> or \<open>..\<close> segment,
  no trailing slash), where they split the path at \<open>/\<close> and work on the segments.
\<close>

fun split_on :: "char \<Rightarrow> string \<Rightarrow> string list" where
  "split_on c [] = [[]]"
| "split_on c (x # xs) =
     (if x = c then [] # split_on c xs
      else (case split_on c xs of [] \<Rightarrow> [[x]] | seg # segs \<Rightarrow> (x # seg) # segs))"

definition segments :: "string \<Rightarrow> string list" where
  "segments p = filter (\<lambda>seg. seg \<noteq> []) (split_on (CHR ''/'') p)"

fun join_segments :: "string list \<Rightarrow> string" where
  "join_segments [] = []"
| "join_segments [seg] = seg"
| "join_segments (seg # segs) = seg @ ''/'' @ join_segments segs"

definition posix_isAbsolute :: "string \<Rightarrow> bool" where
  "posix_isAbsolute p = (case p of [] \<Rightarrow> False | c # _ \<Rightarrow> c = CHR ''/'')"

definition posix_join :: "string list \<Rightarrow> string" where
  "posix_join parts =
     (let joined = join_segments (filter (\<lambda>part. part \<noteq> []) parts);
          body = join_segments (filter (\<lambda>seg. seg \<noteq> ''.'') (segments joined))
      in if posix_isAbsolute joined then CHR ''/'' # body
         else if body = [] then ''.'' else body)"

definition posix_dirname :: "string \<Rightarrow> string" where
  "posix_dirname p =
     (let body = join_segments (butlast (segments p))
      in if posix_isAbsolute p then CHR ''/'' # body
         else if body = [] then ''.'' else body)"

fun last_dot :: "string \<Rightarrow> string" where
  "last_dot [] = []"
| "last_dot (c # cs) =
     (if CHR ''.'' \<in> set cs then last_dot cs
      else if c = CHR ''.'' then c # cs else [])"

definition posix_extname :: "string \<Rightarrow> string" where
  "posix_extname p =
     (case rev (segments p) of
        [] \<Rightarrow> []
      | seg # _ \<Rightarrow> (case seg of [] \<Rightarrow> [] | c # cs \<Rightarrow> last_dot cs))"

definition posix_basename :: "string \<Rightarrow> string \<Rightarrow> string" where
  "posix_basename p suffix =
     (case rev (segments p) of
        [] \<Rightarrow> []
      | seg # _ \<Rightarrow>
          if suffix \<noteq> [] \<and> suffix \<noteq> seg \<and> length suffix \<le> length seg \<and>
             drop (length seg - length suffix) seg = suffix
          then take (length seg - length suffix) seg else seg)"

fun drop_common :: "string list \<Rightarrow> string list \<Rightarrow> string list \<times> string list" where
  "drop_common (x # xs) (y # ys) = (if x = y then drop_common xs ys else (x # xs, y # ys))"
| "drop_common xs ys = (xs, ys)"

definition posix_relative :: "string \<Rightarrow> string \<Rightarrow> string" where
  "posix_relative from to =
     (case drop_common (segments from) (segments to) of
        (ups, downs) \<Rightarrow> join_segments (map (\<lambda>_. ''..'') ups @ downs))"

definition posix :: path_ops where
  "posix = \<lparr>isAbsolute = posix_isAbsolute, join = posix_join, extname = posix_extname,
            relative = posix_relative, basename = posix_basename, dirname = posix_dirname\<rparr>"

section \<open>File system\<close>

text \<open>
  The tools act on the file system through fs-extra. The file system is a map from path
  to node; \<open>fs.pathExists\<close> is true of files and of directories.
\<close>

datatype node = File (content: string) | Dir

type_synonym filesystem = "string \<Rightarrow> node option"

datatype fs_error = ENOENT string | ENOTDIR string | EISDIR string

definition is_file :: "node option \<Rightarrow> bool" where
  "is_file n = (case n of Some (File _) \<Rightarrow> True | _ \<Rightarrow> False)"

definition pathExists :: "filesystem \<Rightarrow> string \<Rightarrow> bool" where
  "pathExists fs p \<longleftrightarrow> fs p \<noteq> None"

text \<open>
  \<open>fs.writeFile(p, data)\<close> creates or replaces the file \<open>p\<close>. It throws when \<open>p\<close> is a
  directory or when the directory that holds \<open>p\<close> is missing or is a file.
\<close>

definition writeFile :: "path_ops \<Rightarrow> string \<Rightarrow> string \<Rightarrow> filesystem \<Rightarrow> fs_error + filesystem" where
  "writeFile P p data fs =
     (if fs p = Some Dir then Inl (EISDIR p)
      else (case fs (dirname P p) of
              None \<Rightarrow> Inl (ENOENT p)
            | Some (File _) \<Rightarrow> Inl (ENOTDIR p)
            | Some Dir \<Rightarrow> Inr (fs(p \<mapsto> File data))))"

text \<open>
  \<open>fs.ensureDir(d)\<close> is \<open>mkdir -p\<close>: it creates \<open>d\<close> and every missing directory above it,
  and throws when \<open>d\<close> or a path above it is a file. The paths above \<open>d\<close> are its
  iterated \<open>dirname\<close>s; every step of \<open>dirname\<close> shortens a path until it reaches the
  root, so as many steps as \<open>d\<close> has characters reach it.
\<close>

fun ancestors :: "path_ops \<Rightarrow> nat \<Rightarrow> string \<Rightarrow> string list" where
  "ancestors P 0 d = []"
| "ancestors P (Suc n) d = d # ancestors P n (dirname P d)"

definition ensureDir :: "path_ops \<Rightarrow> string \<Rightarrow> filesystem \<Rightarrow> fs_error + filesystem" where
  "ensureDir P d fs =
     (let chain = ancestors P (Suc (length d)) d in
      case filter (\<lambda>p. is_file (fs p)) chain of
        p # _ \<Rightarrow> Inl (ENOTDIR p)
      | [] \<Rightarrow> Inr (\<lambda>p. if p \<in> set chain \<and> fs p = None then Some Dir else fs p))"

section \<open>analyzeCoverage (src/tools/analyzeCoverage.ts)\<close>

text \<open>An element \<open>{ file, type, id }\<close> of the \<open>uncovered\<close> array.\<close>

datatype uncovered_item = Uncovered (u_file: string) (u_type: string) (u_id: string)

text \<open>
  The body of the loop \<open>for (const file of Object.keys(coverage))\<close>: three inner loops,
  each pushing one item per entry that passes its test, in the order statements,
  branches, functions.
\<close>

definition file_uncovered :: "string \<Rightarrow> file_coverage \<Rightarrow> uncovered_item list" where
  "file_uncovered file data =
     [Uncovered file ''statement'' stmtId. (stmtId, cnt) \<leftarrow> entries (fc_s data), cnt = 0] @
     [Uncovered file ''branch'' branchId. (branchId, counts) \<leftarrow> entries (fc_b data),
        list_ex (\<lambda>c. c = 0) counts] @
     [Uncovered file ''function'' fnId. (fnId, cnt) \<leftarrow> entries (fc_f data), cnt = 0]"

definition find_uncovered :: "coverage \<Rightarrow> uncovered_item list" where
  "find_uncovered coverage = concat (map (\<lambda>(file, data). file_uncovered file data) coverage)"

text \<open>
  What the promise of a tool is rejected with: \<open>{ error: error.message, stderr }\<close> when
  the subprocess fails, \<open>{ error: 'Failed to read coverage file', details }\<close> when the
  coverage artifact cannot be read or parsed, and the error that fs-extra throws.
\<close>

datatype rejection =
    ExecFailed string string
  | ReadFailed
  | FsError fs_error

record analysis =
  uncovered :: "uncovered_item list"
  coveragePath :: string

text \<open>
  \<open>analyzeCoverage\<close>: \<open>exec_error\<close> is the error the callback of \<open>exec\<close> receives (message
  and stderr, \<open>None\<close> when the test runner exits with 0); \<open>readCoverage\<close> is
  \<open>fs.readFile\<close> followed by \<open>JSON.parse\<close>, \<open>None\<close> when either throws.
\<close>

definition analyzeCoverage ::
  "path_ops \<Rightarrow> (string \<times> string) option \<Rightarrow> (string \<Rightarrow> coverage option) \<Rightarrow> string
     \<Rightarrow> rejection + analysis" where
  "analyzeCoverage P exec_error readCoverage projectRoot =
     (case exec_error of
        Some (message, stderr) \<Rightarrow> Inl (ExecFailed message stderr)
      | None \<Rightarrow>
          let covPath = join P [projectRoot, ''coverage'', ''coverage-final.json''] in
          (case readCoverage covPath of
             None \<Rightarrow> Inl ReadFailed
           | Some coverage \<Rightarrow>
               Inr \<lparr>uncovered = find_uncovered coverage, coveragePath = covPath\<rparr>))"

text \<open>
  A parsed JSON object has no repeated key: the file keys are distinct, and so are the
  ids inside each of \<open>s\<close>, \<open>b\<close> and \<open>f\<close>.
\<close>

definition json_keys_distinct :: "coverage \<Rightarrow> bool" where
  "json_keys_distinct coverage \<longleftrightarrow>
     distinct (map fst coverage) \<and>
     list_all (\<lambda>(file, data).
        distinct (map fst (entries (fc_s data))) \<and>
        distinct (map fst (entries (fc_b data))) \<and>
        distinct (map fst (entries (fc_f data)))) coverage"

text \<open>The items the claim asks for: the zero-count entries of a coverage map.\<close>

definition zero_count_item :: "coverage \<Rightarrow> uncovered_item \<Rightarrow> bool" where
  "zero_count_item coverage u \<longleftrightarrow>
     (\<exists>data. (u_file u, data) \<in> set coverage \<and>
        (u_type u = ''statement'' \<and> (u_id u, 0) \<in> set (entries (fc_s data)) \<or>
         u_type u = ''branch'' \<and> (\<exists>counts. (u_id u, counts) \<in> set (entries (fc_b data)) \<and> 0 \<in> set counts) \<or>
         u_type u = ''function'' \<and> (u_id u, 0) \<in> set (entries (fc_f data))))"

section \<open>Characters of string literals\<close>

text \<open>The single quote, the double quote, the backquote and the line feed.\<close>

definition squote :: string where
  "squote = [CHR 0x27]"



definition newline :: string where
  "newline = [CHR 0x0A]"

section \<open>generateTests (src/tools/generateTests.ts)\<close>

text \<open>
  \<open>generateTests\<close> (named \<open>generateTestsImpl\<close> in the plugin version of the file, with the
  same body) maps an async callback over \<open>uncoveredFiles\<close> and awaits \<open>Promise.all\<close> of the
  promises. Each callback runs up to its first \<open>await\<close> when \<open>map\<close> calls it; after that
  the callbacks are interleaved at their \<open>await\<close>s in the order in which the file
  operations complete. A task is the state of one callback: what it awaits, with its
  local variables, or how its promise was settled.
\<close>

record gt_locals =
  absPath :: string
  ext :: string
  componentName :: string
  testDir :: string

datatype task =
    AwaitEnsureDir gt_locals
  | AwaitPathExists gt_locals
  | AwaitWriteFile gt_locals
  | Resolved "string option"
  | Rejected fs_error

definition test_extensions :: "string list" where
  "test_extensions = [''.tsx'', ''.jsx'', ''.js'', ''.ts'']"

text \<open>The callback up to \<open>await fs.ensureDir(testDir)\<close>; \<open>return null\<close> is \<open>Resolved None\<close>.\<close>

definition start_task :: "path_ops \<Rightarrow> string \<Rightarrow> string \<Rightarrow> task" where
  "start_task P projectRoot filePath =
     (let abs = (if isAbsolute P filePath then filePath else join P [projectRoot, filePath]);
          e = extname P abs
      in if e \<notin> set test_extensions then Resolved None
         else
           let rel = relative P projectRoot abs;
               name = basename P abs e;
               dir = join P [projectRoot, ''__tests__'', dirname P rel]
           in AwaitEnsureDir \<lparr>absPath = abs, ext = e, componentName = name, testDir = dir\<rparr>)"

definition testFile :: "path_ops \<Rightarrow> gt_locals \<Rightarrow> string" where
  "testFile P l = join P [testDir l, componentName l @ ''.test'' @ ext l]"

text \<open>\<open>importPath.replace(/\\/g, '/')\<close>, the backslash being character 92.\<close>

definition replace_backslashes :: "string \<Rightarrow> string" where
  "replace_backslashes str = map (\<lambda>c. if c = char_of (92 :: nat) then CHR ''/'' else c) str"

definition startsWith :: "string \<Rightarrow> string \<Rightarrow> bool" where
  "startsWith str pre \<longleftrightarrow> take (length pre) str = pre"


definition template :: "path_ops \<Rightarrow> gt_locals \<Rightarrow> string" where
  "template P l =
     (let importPath = replace_backslashes (relative P (testDir l) (absPath l)) in
      ''import { render } from '' @ squote @ ''@testing-library/react'' @ squote @ '';'' @ newline @
      ''import '' @ componentName l @ '' from '' @ squote @
        (if startsWith importPath ''.'' then importPath else ''./'' @ importPath) @
        squote @ '';'' @ newline @ newline @
      ''test('' @ squote @ ''renders '' @ componentName l @ '' without crashing'' @ squote @
        '', () => {'' @ newline @
      ''  const { container } = render(<'' @ componentName l @ '' />);'' @ newline @
      ''  expect(container).toBeTruthy();'' @ newline @
      ''});'' @ newline)"

text \<open>The call to fs-extra that a callback awaits.\<close>

datatype fs_call = EnsureDir string | PathExists string | WriteFile string

fun awaited :: "path_ops \<Rightarrow> task \<Rightarrow> fs_call list" where
  "awaited P (AwaitEnsureDir l) = [EnsureDir (testDir l)]"
| "awaited P (AwaitPathExists l) = [PathExists (testFile P l)]"
| "awaited P (AwaitWriteFile l) = [WriteFile (testFile P l)]"
| "awaited P (Resolved r) = []"
| "awaited P (Rejected e) = []"

text \<open>
  One callback resumed at its \<open>await\<close>: the file operation it waited for takes effect
  and the callback runs to its next \<open>await\<close> or to its end. A settled callback does
  nothing.
\<close>

fun resume :: "path_ops \<Rightarrow> task \<Rightarrow> filesystem \<Rightarrow> task \<times> filesystem" where
  "resume P (AwaitEnsureDir l) fs =
     (case ensureDir P (testDir l) fs of
        Inl e \<Rightarrow> (Rejected e, fs)
      | Inr fs' \<Rightarrow> (AwaitPathExists l, fs'))"
| "resume P (AwaitPathExists l) fs =
     (if pathExists fs (testFile P l) then (Resolved None, fs) else (AwaitWriteFile l, fs))"
| "resume P (AwaitWriteFile l) fs =
     (case writeFile P (testFile P l) (template P l) fs of
        Inl e \<Rightarrow> (Rejected e, fs)
      | Inr fs' \<Rightarrow> (Resolved (Some (testFile P l)), fs'))"
| "resume P (Resolved r) fs = (Resolved r, fs)"
| "resume P (Rejected e) fs = (Rejected e, fs)"

text \<open>
  The state of one call: the callbacks in the order of \<open>uncoveredFiles\<close>, the file system,
  the first rejection, which is what \<open>Promise.all\<close> rejects with, and the calls to
  fs-extra made so far, each with the index of the callback that made it.
\<close>

record gt_state =
  tasks :: "task list"
  files :: filesystem
  first_rejection :: "fs_error option"
  trace :: "(nat \<times> fs_call) list"

definition gt_init :: "path_ops \<Rightarrow> string \<Rightarrow> string list \<Rightarrow> filesystem \<Rightarrow> gt_state" where
  "gt_init P projectRoot uncoveredFiles fs =
     \<lparr>tasks = map (start_task P projectRoot) uncoveredFiles, files = fs, first_rejection = None,
      trace = []\<rparr>"

definition gt_step :: "path_ops \<Rightarrow> nat \<Rightarrow> gt_state \<Rightarrow> gt_state" where
  "gt_step P i st =
     (if i < length (tasks st) then
        (case resume P (tasks st ! i) (files st) of
           (t, fs) \<Rightarrow>
             \<lparr>tasks = (tasks st)[i := t], files = fs,
              first_rejection = (case (first_rejection st, t) of
                             (None, Rejected e) \<Rightarrow> Some e
                           | (r, _) \<Rightarrow> r),
              trace = trace st @ map (Pair i) (awaited P (tasks st ! i))\<rparr>)
      else st)"

text \<open>
  A schedule is the order in which the callbacks are resumed, as indices into
  \<open>uncoveredFiles\<close>; any order can occur.
\<close>

fun gt_run :: "path_ops \<Rightarrow> nat list \<Rightarrow> gt_state \<Rightarrow> gt_state" where
  "gt_run P [] st = st"
| "gt_run P (i # sched) st = gt_run P sched (gt_step P i st)"

text \<open>
  \<open>results.filter(Boolean)\<close>: the test files written, without the \<open>null\<close>s (and without
  the empty string, the one string that is falsy).
\<close>

fun written :: "task list \<Rightarrow> string list" where
  "written [] = []"
| "written (Resolved (Some p) # ts) = (if p = [] then written ts else p # written ts)"
| "written (t # ts) = written ts"

text \<open>
  What \<open>generateTests\<close> returns in a state: it rejects with the first rejection, it
  returns the written test files once every callback has returned, and it is pending
  (\<open>None\<close>) before that.
\<close>

definition is_resolved :: "task \<Rightarrow> bool" where
  "is_resolved t = (case t of Resolved _ \<Rightarrow> True | _ \<Rightarrow> False)"

definition gt_result :: "gt_state \<Rightarrow> (fs_error + string list) option" where
  "gt_result st =
     (case first_rejection st of
        Some e \<Rightarrow> Some (Inl e)
      | None \<Rightarrow> if list_all is_resolved (tasks st) then Some (Inr (written (tasks st))) else None)"

definition generateTests ::
  "path_ops \<Rightarrow> nat list \<Rightarrow> string \<Rightarrow> string list \<Rightarrow> filesystem
     \<Rightarrow> (fs_error + string list) option \<times> filesystem" where
  "generateTests P sched projectRoot uncoveredFiles fs =
     (let st = gt_run P sched (gt_init P projectRoot uncoveredFiles fs)
      in (gt_result st, files st))"

text \<open>The test file of an input path, if its extension is one that gets a test.\<close>

definition target_testFile :: "path_ops \<Rightarrow> string \<Rightarrow> string \<Rightarrow> string option" where
  "target_testFile P projectRoot filePath =
     (case start_task P projectRoot filePath of
        AwaitEnsureDir l \<Rightarrow> Some (testFile P l)
      | _ \<Rightarrow> None)"

section \<open>Invariant of generateTests\<close>

text \<open>No callback awaits a write to, or has written, a path that existed at the start.\<close>

fun task_ok :: "path_ops \<Rightarrow> filesystem \<Rightarrow> task \<Rightarrow> bool" where
  "task_ok P fs0 (AwaitWriteFile l) \<longleftrightarrow> fs0 (testFile P l) = None"
| "task_ok P fs0 (Resolved (Some p)) \<longleftrightarrow> fs0 p = None"
| "task_ok P fs0 t \<longleftrightarrow> True"

definition gt_inv :: "path_ops \<Rightarrow> filesystem \<Rightarrow> gt_state \<Rightarrow> bool" where
  "gt_inv P fs0 st \<longleftrightarrow>
     (\<forall>p. fs0 p \<noteq> None \<longrightarrow> files st p = fs0 p) \<and> list_all (task_ok P fs0) (tasks st) \<and>
     (\<forall>i p. (i, WriteFile p) \<in> set (trace st) \<longrightarrow> fs0 p = None)"

section \<open>setupVitest (src/tools/setupVitest.ts)\<close>






record setup_result =
  message :: string
  stdout :: string


section \<open>Numbers and strings of JavaScript\<close>

text \<open>\<open>String(n)\<close> of an integer: its decimal digits, with a minus sign when negative.\<close>

definition digit_char :: "nat \<Rightarrow> char" where
  "digit_char d = char_of (48 + d)"

function show_nat :: "nat \<Rightarrow> string" where
  "show_nat n = (if n < 10 then [digit_char n] else show_nat (n div 10) @ [digit_char (n mod 10)])"
  by pat_completeness auto
termination
  by (relation "measure (\<lambda>n. n)") auto

definition show_int :: "int \<Rightarrow> string" where
  "show_int i = (if i < 0 then ''-'' @ show_nat (nat (- i)) else show_nat (nat i))"




section \<open>profileTests (the test profiler plugin)\<close>



















section \<open>computeDiff and generateDiffSummary (src/tools/coverageDiff.ts)\<close>

text \<open>
  The values that the sums of \<open>computeDiff\<close> take: a number, \<open>NaN\<close> or a string. The
  statement sums add numbers. The branch sums are written
  \<open>Object.values(baseB).reduce((a, b) => a + (b as number), 0)\<close>, where each \<open>b\<close> is the
  array of hit counts of a branch: \<open>+\<close> with an array operand converts both operands to
  strings (the array to its elements joined by commas) and concatenates them.
\<close>

datatype jsval = JsNumber int | JsNaN | JsString string

fun join_commas :: "string list \<Rightarrow> string" where
  "join_commas [] = []"
| "join_commas [x] = x"
| "join_commas (x # xs) = x @ '','' @ join_commas xs"

definition js_to_string :: "jsval \<Rightarrow> string" where
  "js_to_string v = (case v of JsNumber n \<Rightarrow> show_int n | JsNaN \<Rightarrow> ''NaN'' | JsString str \<Rightarrow> str)"

definition js_add_array :: "jsval \<Rightarrow> int list \<Rightarrow> jsval" where
  "js_add_array a b = JsString (js_to_string a @ join_commas (map show_int b))"

text \<open>
  \<open>-\<close> converts its operands to numbers. The strings that reach it here are made of
  decimal digits, minus signs and commas; such a string is a number when it is empty
  (0) or is decimal digits after an optional sign, and \<open>NaN\<close> otherwise.
\<close>

definition is_digit :: "char \<Rightarrow> bool" where
  "is_digit c \<longleftrightarrow> 48 \<le> (of_char c :: nat) \<and> (of_char c :: nat) \<le> 57"

definition digits_value :: "string \<Rightarrow> int" where
  "digits_value ds = foldl (\<lambda>acc c. 10 * acc + int (of_char c - 48)) 0 ds"

definition js_to_number :: "jsval \<Rightarrow> jsval" where
  "js_to_number v =
     (case v of
        JsNumber n \<Rightarrow> JsNumber n
      | JsNaN \<Rightarrow> JsNaN
      | JsString str \<Rightarrow>
          (case str of
             [] \<Rightarrow> JsNumber 0
           | c # cs \<Rightarrow>
               if c = CHR ''-'' \<and> cs \<noteq> [] \<and> list_all is_digit cs then JsNumber (- digits_value cs)
               else if c = CHR ''+'' \<and> cs \<noteq> [] \<and> list_all is_digit cs then JsNumber (digits_value cs)
               else if list_all is_digit str then JsNumber (digits_value str)
               else JsNaN))"

definition js_sub :: "jsval \<Rightarrow> jsval \<Rightarrow> jsval" where
  "js_sub a b =
     (case (js_to_number a, js_to_number b) of
        (JsNumber x, JsNumber y) \<Rightarrow> JsNumber (x - y)
      | _ \<Rightarrow> JsNaN)"

record file_diff =
  baseStatements :: int
  currentStatements :: int
  statementChange :: int
  baseBranches :: jsval
  currentBranches :: jsval
  branchChange :: jsval

text \<open>\<open>new Set([...Object.keys(base), ...Object.keys(current)])\<close> keeps the first of equal keys.\<close>

fun unique_keys :: "string list \<Rightarrow> string list" where
  "unique_keys [] = []"
| "unique_keys (k # ks) = k # unique_keys (filter (\<lambda>k'. k' \<noteq> k) ks)"

definition sum_values :: "(string \<times> int) list \<Rightarrow> int" where
  "sum_values obj = foldl (\<lambda>a b. a + b) 0 (map snd obj)"

definition sum_branch_values :: "(string \<times> int list) list \<Rightarrow> jsval" where
  "sum_branch_values obj = foldl js_add_array (JsNumber 0) (map snd obj)"

definition statements_of :: "coverage \<Rightarrow> string \<Rightarrow> (string \<times> int) list" where
  "statements_of cov f = (case map_of cov f of None \<Rightarrow> [] | Some data \<Rightarrow> entries (fc_s data))"

definition branches_of :: "coverage \<Rightarrow> string \<Rightarrow> (string \<times> int list) list" where
  "branches_of cov f = (case map_of cov f of None \<Rightarrow> [] | Some data \<Rightarrow> entries (fc_b data))"

definition computeDiff :: "coverage \<Rightarrow> coverage \<Rightarrow> (string \<times> file_diff) list" where
  "computeDiff base current =
     map (\<lambda>f.
       let baseS = statements_of base f;
           curS = statements_of current f;
           baseCovered = sum_values baseS;
           curCovered = sum_values curS;
           baseB = branches_of base f;
           curB = branches_of current f
       in (f, \<lparr>baseStatements = baseCovered,
                currentStatements = curCovered,
                statementChange = curCovered - baseCovered,
                baseBranches = sum_branch_values baseB,
                currentBranches = sum_branch_values curB,
                branchChange = js_sub (sum_branch_values curB) (sum_branch_values baseB)\<rparr>))
       (unique_keys (map fst base @ map fst current))"

record diff_summary =
  totalFiles :: nat
  improvedFiles :: nat
  degradedFiles :: nat
  unchangedFiles :: int
  totalStatementChange :: int

text \<open>The loop of \<open>generateDiffSummary\<close> over \<open>Object.values(diff)\<close>, on its three counters.\<close>

fun diff_counts :: "file_diff list \<Rightarrow> nat \<times> nat \<times> int \<Rightarrow> nat \<times> nat \<times> int" where
  "diff_counts [] acc = acc"
| "diff_counts (fileData # rest) (improved, degraded, change) =
     diff_counts rest
       (if statementChange fileData > 0 then improved + 1 else improved,
        if statementChange fileData < 0 then degraded + 1 else degraded,
        change + statementChange fileData)"

definition generateDiffSummary :: "(string \<times> file_diff) list \<Rightarrow> diff_summary" where
  "generateDiffSummary diff =
     (case diff_counts (map snd diff) (0, 0, 0) of
        (improved, degraded, change) \<Rightarrow>
          \<lparr>totalFiles = length diff, improvedFiles = improved, degradedFiles = degraded,
           unchangedFiles = int (length diff) - int improved - int degraded,
           totalStatementChange = change\<rparr>)"

section \<open>loadPlugins (src/plugins/loader.ts)\<close>











section \<open>The LLM service (src/services/localLLMService.ts)\<close>















section \<open>generateAITests (the AI test writer plugin)\<close>










section \<open>Requests and responses\<close>

text \<open>
  A response is the status set with \<open>res.status\<close> (200 when the handler sets none) and the
  value given to \<open>res.json\<close>. Of the request body the handlers read \<open>projectPath\<close>,
  \<open>uncoveredFiles\<close> and \<open>baseBranch\<close>; \<open>None\<close> is a field that is missing.
\<close>

datatype json =
  JNull | JBool bool | JNum int | JStr string | JArr "json list" | JObj "(string \<times> json) list"

record response =
  status :: nat
  body :: json



section \<open>The handlers of the entry point (src/index.ts)\<close>






section \<open>generateCoverageDiff and the /coverage-diff route (src/tools/coverageDiff.ts)\<close>














section \<open>The routes of the AI test writer plugin, local LLM version\<close>





section \<open>Process-wide state\<close>




text \<open>The routes that the entry point and the plugins register.\<close>

datatype route =
    Health | Api | SetupVitest | AnalyzeCoverage | GenerateTests
  | CoverageDiff | CoverageBadge | ProfileTests | TestAnalysis
  | GenerateHeatmap | CoverageHeatmapHtml
  | GenerateWorkflow | GenerateAllWorkflows | CiHealth
  | AiGenerateTests | AiHealth | LlmConfig


section \<open>Example inputs\<close>

definition example_coverage :: coverage where
  "example_coverage =
     [(''src/App.tsx'', \<lparr>fc_s = Some [(''0'', 3), (''1'', 0)], fc_b = Some [(''0'', [1, 0]), (''1'', [2, 2])],
                           fc_f = Some [(''0'', 0)]\<rparr>),
      (''src/util.ts'', \<lparr>fc_s = Some [(''0'', 1)], fc_b = None, fc_f = Some [(''0'', 4)]\<rparr>)]"

definition example_fs :: filesystem where
  "example_fs =
     [''/'' \<mapsto> Dir, ''/proj'' \<mapsto> Dir, ''/proj/src'' \<mapsto> Dir,
      ''/proj/src/App.tsx'' \<mapsto> File ''app'', ''/proj/src/Btn.tsx'' \<mapsto> File ''btn'',
      ''/proj/__tests__'' \<mapsto> Dir, ''/proj/__tests__/src'' \<mapsto> Dir,
      ''/proj/__tests__/src/App.test.tsx'' \<mapsto> File ''user test'']"




definition example_base :: coverage where
  "example_base =
     [(''src/a.ts'', \<lparr>fc_s = Some [(''0'', 1), (''1'', 0)], fc_b = Some [(''0'', [1, 0])], fc_f = Some [(''0'', 1)]\<rparr>)]"

definition example_current :: coverage where
  "example_current =
     [(''src/a.ts'', \<lparr>fc_s = Some [(''0'', 2), (''1'', 1)], fc_b = Some [(''0'', [2, 1])], fc_f = Some [(''0'', 2)]\<rparr>)]"










section \<open>Properties of analyzeCoverage\<close>

lemma count_list_distinct:
  "distinct xs \<Longrightarrow> count_list xs x = (if x \<in> set xs then 1 else 0)"
  by (induction xs) auto

lemma set_file_uncovered:
  "u \<in> set (file_uncovered file data) \<longleftrightarrow>
     u_file u = file \<and>
     (u_type u = ''statement'' \<and> (u_id u, 0) \<in> set (entries (fc_s data)) \<or>
      u_type u = ''branch'' \<and> (\<exists>counts. (u_id u, counts) \<in> set (entries (fc_b data)) \<and> 0 \<in> set counts) \<or>
      u_type u = ''function'' \<and> (u_id u, 0) \<in> set (entries (fc_f data)))"
  by (cases u) (auto simp: file_uncovered_def list_ex_iff)

lemma set_find_uncovered: "u \<in> set (find_uncovered coverage) \<longleftrightarrow> zero_count_item coverage u"
  by (auto simp: find_uncovered_def zero_count_item_def set_file_uncovered)

lemma distinct_keyed_items:
  "distinct (map fst kvs) \<Longrightarrow>
     distinct [Uncovered file ty k. (k, v) \<leftarrow> kvs, Q v]"
proof (induction kvs)
  case Nil
  then show ?case by simp
next
  case (Cons kv kvs)
  obtain k v where kv: "kv = (k, v)" by (cases kv)
  from Cons show ?case by (auto simp: kv image_iff)
qed

lemma distinct_file_uncovered:
  assumes "distinct (map fst (entries (fc_s data)))"
    and "distinct (map fst (entries (fc_b data)))"
    and "distinct (map fst (entries (fc_f data)))"
  shows "distinct (file_uncovered file data)"
  unfolding file_uncovered_def distinct_append
  using assms by (auto simp: distinct_keyed_items)

lemma distinct_find_uncovered:
  "json_keys_distinct coverage \<Longrightarrow> distinct (find_uncovered coverage)"
proof (induction coverage)
  case Nil
  then show ?case by (simp add: find_uncovered_def)
next
  case (Cons fd coverage)
  obtain fl data where fd: "fd = (fl, data)" by (cases fd)
  from Cons.prems have rest: "json_keys_distinct coverage"
    and fresh: "fl \<notin> fst ` set coverage"
    and keys: "distinct (map fst (entries (fc_s data)))"
      "distinct (map fst (entries (fc_b data)))"
      "distinct (map fst (entries (fc_f data)))"
    by (auto simp: json_keys_distinct_def fd)
  have disjoint: "set (file_uncovered fl data) \<inter> set (find_uncovered coverage) = {}"
  proof (rule ccontr)
    assume "set (file_uncovered fl data) \<inter> set (find_uncovered coverage) \<noteq> {}"
    then obtain u where "u \<in> set (file_uncovered fl data)" "u \<in> set (find_uncovered coverage)"
      by blast
    then have "u_file u = fl" "\<exists>data'. (u_file u, data') \<in> set coverage"
      by (auto simp: set_file_uncovered set_find_uncovered zero_count_item_def)
    with fresh show False by force
  qed
  have "find_uncovered (fd # coverage) = file_uncovered fl data @ find_uncovered coverage"
    by (simp add: find_uncovered_def fd)
  with Cons.IH [OF rest] distinct_file_uncovered [OF keys] disjoint
  show ?case by simp
qed

text \<open>
  Claim C1. When the test runner succeeds and the coverage artifact reads as the
  coverage map \<open>coverage\<close>, analyzeCoverage resolves, and its \<open>uncovered\<close> list holds no
  item twice and holds exactly the items \<open>{file, type, id}\<close> of a statement id with hit
  count zero, a branch id whose array of hit counts has an element equal to zero, or a
  function id with hit count zero; a statement, branch or function whose counts are all
  non-zero has no item.
\<close>

theorem analyzeCoverage_zero_counts:
  assumes "json_keys_distinct coverage"
    and "readCoverage (join P [projectRoot, ''coverage'', ''coverage-final.json'']) = Some coverage"
  shows "\<exists>r. analyzeCoverage P None readCoverage projectRoot = Inr r \<and>
           distinct (uncovered r) \<and>
           (\<forall>u. count_list (uncovered r) u = (if zero_count_item coverage u then 1 else 0))"
proof -
  let ?r = "\<lparr>uncovered = find_uncovered coverage,
             coveragePath = join P [projectRoot, ''coverage'', ''coverage-final.json'']\<rparr>"
  have res: "analyzeCoverage P None readCoverage projectRoot = Inr ?r"
    using assms(2) by (simp add: analyzeCoverage_def)
  have d: "distinct (find_uncovered coverage)"
    using assms(1) by (rule distinct_find_uncovered)
  have "count_list (find_uncovered coverage) u = (if zero_count_item coverage u then 1 else 0)" for u
    using d by (simp add: count_list_distinct set_find_uncovered)
  with res d show ?thesis by simp
qed

theorem analyzeCoverage_zero_counts_witness:
  "json_keys_distinct example_coverage \<and>
   (\<exists>r. analyzeCoverage posix None (\<lambda>_. Some example_coverage) ''/proj'' = Inr r \<and>
        distinct (uncovered r) \<and>
        (\<forall>u. count_list (uncovered r) u = (if zero_count_item example_coverage u then 1 else 0))) \<and>
   find_uncovered example_coverage =
     [Uncovered ''src/App.tsx'' ''statement'' ''1'', Uncovered ''src/App.tsx'' ''branch'' ''0'',
      Uncovered ''src/App.tsx'' ''function'' ''0'']"
proof -
  have k: "json_keys_distinct example_coverage" by code_simp
  have v: "find_uncovered example_coverage =
     [Uncovered ''src/App.tsx'' ''statement'' ''1'', Uncovered ''src/App.tsx'' ''branch'' ''0'',
      Uncovered ''src/App.tsx'' ''function'' ''0'']" by code_simp
  from analyzeCoverage_zero_counts [OF k, of "\<lambda>_. Some example_coverage" posix "''/proj''"] k v
  show ?thesis by simp
qed

section \<open>Properties of generateTests\<close>

lemma ensureDir_keeps: "ensureDir P d fs = Inr fs' \<Longrightarrow> fs p = Some n \<Longrightarrow> fs' p = Some n"
  by (auto simp: ensureDir_def Let_def split: list.splits)

lemma writeFile_other: "writeFile P q data fs = Inr fs' \<Longrightarrow> p \<noteq> q \<Longrightarrow> fs' p = fs p"
  by (auto simp: writeFile_def split: if_splits option.splits node.splits)

lemma awaited_ok: "task_ok P fs0 t \<Longrightarrow> WriteFile p \<in> set (awaited P t) \<Longrightarrow> fs0 p = None"
  by (cases t) auto

lemma resume_inv:
  assumes "\<forall>p. fs0 p \<noteq> None \<longrightarrow> fs p = fs0 p" and "task_ok P fs0 t" and "resume P t fs = (t', fs')"
  shows "(\<forall>p. fs0 p \<noteq> None \<longrightarrow> fs' p = fs0 p) \<and> task_ok P fs0 t'"
proof (cases t)
  case (AwaitEnsureDir l)
  show ?thesis
  proof (cases "ensureDir P (testDir l) fs")
    case (Inl e)
    with assms AwaitEnsureDir show ?thesis by auto
  next
    case (Inr fs1)
    with assms(3) AwaitEnsureDir have eq: "t' = AwaitPathExists l" "fs' = fs1" by auto
    have "fs' p = fs0 p" if "fs0 p \<noteq> None" for p
    proof -
      from that obtain n where n: "fs0 p = Some n" by auto
      with assms(1) have "fs p = Some n" by auto
      with Inr eq n show ?thesis by (simp add: ensureDir_keeps)
    qed
    with eq show ?thesis by simp
  qed
next
  case (AwaitPathExists l)
  with assms show ?thesis
    by (auto simp: pathExists_def split: if_splits)
next
  case (AwaitWriteFile l)
  show ?thesis
  proof (cases "writeFile P (testFile P l) (template P l) fs")
    case (Inl e)
    with assms AwaitWriteFile show ?thesis by auto
  next
    case (Inr fs1)
    with assms(3) AwaitWriteFile have eq: "t' = Resolved (Some (testFile P l))" "fs' = fs1" by auto
    from assms(2) AwaitWriteFile have new: "fs0 (testFile P l) = None" by simp
    have "fs' p = fs0 p" if "fs0 p \<noteq> None" for p
    proof -
      from that new have "p \<noteq> testFile P l" by auto
      with Inr eq have "fs' p = fs p" by (simp add: writeFile_other)
      with assms(1) that show ?thesis by simp
    qed
    with eq new show ?thesis by simp
  qed
next
  case (Resolved r)
  with assms show ?thesis by auto
next
  case (Rejected e)
  with assms show ?thesis by auto
qed

lemma gt_step_inv: "gt_inv P fs0 st \<Longrightarrow> gt_inv P fs0 (gt_step P i st)"
proof (cases "i < length (tasks st)")
  case False
  assume "gt_inv P fs0 st"
  with False show ?thesis by (simp add: gt_step_def)
next
  case True
  assume inv: "gt_inv P fs0 st"
  obtain t' fs' where r: "resume P (tasks st ! i) (files st) = (t', fs')"
    by (cases "resume P (tasks st ! i) (files st)")
  from inv True have "task_ok P fs0 (tasks st ! i)"
    by (simp add: gt_inv_def list_all_length)
  with inv r have "(\<forall>p. fs0 p \<noteq> None \<longrightarrow> fs' p = fs0 p) \<and> task_ok P fs0 t'"
    using resume_inv [of fs0 "files st" P "tasks st ! i" t' fs'] by (simp add: gt_inv_def)
  moreover from inv have "list_all (task_ok P fs0) (tasks st)"
    and "\<forall>i p. (i, WriteFile p) \<in> set (trace st) \<longrightarrow> fs0 p = None" by (simp_all add: gt_inv_def)
  moreover note awaited_ok [OF \<open>task_ok P fs0 (tasks st ! i)\<close>]
  ultimately show ?thesis
    using True r by (auto simp: gt_inv_def gt_step_def list_all_length nth_list_update)
qed

lemma gt_run_inv: "gt_inv P fs0 st \<Longrightarrow> gt_inv P fs0 (gt_run P sched st)"
  by (induction sched arbitrary: st) (auto intro: gt_step_inv)

lemma start_task_ok: "task_ok P fs0 (start_task P projectRoot filePath)"
  by (simp add: start_task_def Let_def)

lemma gt_init_inv: "gt_inv P fs0 (gt_init P projectRoot uncoveredFiles fs0)"
  by (simp add: gt_inv_def gt_init_def list_all_iff start_task_ok)

lemma written_iff: "p \<in> set (written ts) \<longleftrightarrow> p \<noteq> [] \<and> Resolved (Some p) \<in> set ts"
  by (induction ts rule: written.induct) auto

lemma existing_paths_kept:
  assumes "fs p \<noteq> None"
  shows "files (gt_run P sched (gt_init P projectRoot uncoveredFiles fs)) p = fs p"
    and "(i, WriteFile p) \<notin> set (trace (gt_run P sched (gt_init P projectRoot uncoveredFiles fs)))"
    and "p \<notin> set (written (tasks (gt_run P sched (gt_init P projectRoot uncoveredFiles fs))))"
proof -
  let ?st = "gt_run P sched (gt_init P projectRoot uncoveredFiles fs)"
  have inv: "gt_inv P fs ?st" by (rule gt_run_inv [OF gt_init_inv])
  with assms show "files ?st p = fs p" by (simp add: gt_inv_def)
  from inv assms show "(i, WriteFile p) \<notin> set (trace ?st)" by (auto simp: gt_inv_def)
  show "p \<notin> set (written (tasks ?st))"
  proof
    assume "p \<in> set (written (tasks ?st))"
    then have "Resolved (Some p) \<in> set (tasks ?st)" by (simp add: written_iff)
    with inv have "task_ok P fs (Resolved (Some p))" by (auto simp: gt_inv_def list_all_iff)
    with assms show False by simp
  qed
qed

text \<open>
  Claim C2. For every project root, every list of uncovered file paths and every order
  in which the callbacks are resumed: if the test file path computed for an input file
  exists before the call, then its node is the same after the call (and in every state
  during it), no callback calls \<open>writeFile\<close> on it, and it is not in the returned list of
  generated test files.
\<close>

theorem generateTests_keeps_existing_test_file:
  assumes "filePath \<in> set uncoveredFiles"
    and "target_testFile P projectRoot filePath = Some p"
    and "pathExists fs p"
    and "generateTests P sched projectRoot uncoveredFiles fs = (result, fs')"
  shows "fs' p = fs p \<and>
         (\<forall>i. (i, WriteFile p) \<notin> set (trace (gt_run P sched (gt_init P projectRoot uncoveredFiles fs)))) \<and>
         (\<forall>generated. result = Some (Inr generated) \<longrightarrow> p \<notin> set generated)"
proof -
  let ?st = "gt_run P sched (gt_init P projectRoot uncoveredFiles fs)"
  from assms(3) have ex: "fs p \<noteq> None" by (simp add: pathExists_def)
  from assms(4) have res: "result = gt_result ?st" and fs': "fs' = files ?st"
    by (simp_all add: generateTests_def Let_def)
  have "p \<notin> set generated" if "result = Some (Inr generated)" for generated
  proof -
    from that res have "generated = written (tasks ?st)"
      by (auto simp: gt_result_def split: option.splits if_splits)
    with existing_paths_kept(3) [where fs = fs and p = p, OF ex]
    show ?thesis by simp
  qed
  moreover have "files ?st p = fs p"
    by (rule existing_paths_kept(1) [where fs = fs and p = p, OF ex])
  moreover have "(i, WriteFile p) \<notin> set (trace ?st)" for i
    by (rule existing_paths_kept(2) [where fs = fs and p = p, OF ex])
  ultimately show ?thesis using fs' by simp
qed

theorem generateTests_keeps_existing_test_file_witness:
  "''src/App.tsx'' \<in> set [''src/App.tsx'', ''src/Btn.tsx''] \<and>
   target_testFile posix ''/proj'' ''src/App.tsx'' = Some ''/proj/__tests__/src/App.test.tsx'' \<and>
   pathExists example_fs ''/proj/__tests__/src/App.test.tsx'' \<and>
   snd (generateTests posix [0, 1, 1, 0, 1] ''/proj'' [''src/App.tsx'', ''src/Btn.tsx''] example_fs)
     ''/proj/__tests__/src/App.test.tsx'' = Some (File ''user test'') \<and>
   fst (generateTests posix [0, 1, 1, 0, 1] ''/proj'' [''src/App.tsx'', ''src/Btn.tsx''] example_fs)
     = Some (Inr [''/proj/__tests__/src/Btn.test.tsx''])"
proof -
  let ?g = "generateTests posix [0, 1, 1, 0, 1] ''/proj'' [''src/App.tsx'', ''src/Btn.tsx''] example_fs"
  have h1: "''src/App.tsx'' \<in> set [''src/App.tsx'', ''src/Btn.tsx'']" by simp
  have h2: "target_testFile posix ''/proj'' ''src/App.tsx'' = Some ''/proj/__tests__/src/App.test.tsx''"
    by code_simp
  have h3: "pathExists example_fs ''/proj/__tests__/src/App.test.tsx''" by code_simp
  have h4: "?g = (fst ?g, snd ?g)" by simp
  have v: "fst ?g = Some (Inr [''/proj/__tests__/src/Btn.test.tsx''])" by code_simp
  have e: "example_fs ''/proj/__tests__/src/App.test.tsx'' = Some (File ''user test'')" by code_simp
  from generateTests_keeps_existing_test_file [OF h1 h2 h3 h4] e
  have "snd ?g ''/proj/__tests__/src/App.test.tsx'' = Some (File ''user test'')" by simp
  with h1 h2 h3 v show ?thesis by blast
qed

lemma gt_step_settled:
  assumes "i < length (tasks st)" and "tasks st ! i = Resolved r"
  shows "gt_step P i st = st"
proof -
  from assms(2) have "(tasks st)[i := Resolved r] = tasks st"
    by (metis list_update_id)
  with assms show ?thesis
    by (cases st) (simp add: gt_step_def split: option.splits)
qed

lemma gt_step_keeps_settled:
  assumes "i < length (tasks st)" and "tasks st ! i = Resolved r"
  shows "i < length (tasks (gt_step P j st)) \<and> tasks (gt_step P j st) ! i = Resolved r \<and>
         ((i, c) \<in> set (trace (gt_step P j st)) \<longleftrightarrow> (i, c) \<in> set (trace st))"
  using assms
  by (auto simp: gt_step_def nth_list_update split: prod.splits)

lemma gt_run_settled:
  assumes "i < length (tasks st)" and "tasks st ! i = Resolved r"
  shows "tasks (gt_run P sched st) ! i = Resolved r \<and>
         ((i, c) \<in> set (trace (gt_run P sched st)) \<longleftrightarrow> (i, c) \<in> set (trace st)) \<and>
         gt_run P sched st = gt_run P (filter (\<lambda>j. j \<noteq> i) sched) st"
  using assms
proof (induction sched arbitrary: st)
  case Nil
  then show ?case by simp
next
  case (Cons j sched)
  from gt_step_keeps_settled [OF Cons.prems, where P = P and j = j and c = c]
  have *: "i < length (tasks (gt_step P j st))" "tasks (gt_step P j st) ! i = Resolved r"
    "(i, c) \<in> set (trace (gt_step P j st)) \<longleftrightarrow> (i, c) \<in> set (trace st)"
    by auto
  from Cons.IH [OF *(1,2)] *(3) gt_step_settled [OF Cons.prems, where P = P]
  show ?case by (cases "j = i") auto
qed

lemma written_Cons:
  "written (t # ts) =
     (case t of Resolved (Some p) \<Rightarrow> if p = [] then [] else [p] | _ \<Rightarrow> []) @ written ts"
  by (cases t) (auto split: option.splits)

lemma written_split:
  "i < length ts \<Longrightarrow> ts ! i = Resolved None \<Longrightarrow>
     written ts = written (take i ts) @ written (drop (Suc i) ts)"
proof (induction ts arbitrary: i)
  case Nil
  then show ?case by simp
next
  case (Cons t ts)
  show ?case
  proof (cases i)
    case 0
    with Cons.prems show ?thesis by simp
  next
    case (Suc k)
    with Cons.prems have "written ts = written (take k ts) @ written (drop (Suc k) ts)"
      by (intro Cons.IH) auto
    with Suc show ?thesis by (simp add: written_Cons del: written.simps)
  qed
qed

text \<open>
  Claim C10. For an input path whose extension (\<open>path.extname\<close> of its absolute path) is
  none of \<open>.tsx\<close>, \<open>.jsx\<close>, \<open>.js\<close>, \<open>.ts\<close>, the callback returns \<open>null\<close> before its first
  \<open>await\<close>: in every state of the call it is settled with \<open>null\<close>, it has made no call to
  fs-extra (so it has written no file), the call behaves as if the callback were never
  resumed, and the returned list is the one built from the other callbacks.
\<close>

theorem generateTests_skips_other_extensions:
  assumes "i < length uncoveredFiles"
    and "filePath = uncoveredFiles ! i"
    and "extname P (if isAbsolute P filePath then filePath else join P [projectRoot, filePath])
           \<notin> set [''.tsx'', ''.jsx'', ''.js'', ''.ts'']"
    and "st = gt_run P sched (gt_init P projectRoot uncoveredFiles fs)"
  shows "tasks st ! i = Resolved None \<and>
         (\<forall>c. (i, c) \<notin> set (trace st)) \<and>
         generateTests P sched projectRoot uncoveredFiles fs =
           generateTests P (filter (\<lambda>j. j \<noteq> i) sched) projectRoot uncoveredFiles fs \<and>
         written (tasks st) = written (take i (tasks st)) @ written (drop (Suc i) (tasks st))"
proof -
  let ?init = "gt_init P projectRoot uncoveredFiles fs"
  from assms(1) have len: "i < length (tasks ?init)" by (simp add: gt_init_def)
  from assms(3) have "start_task P projectRoot (uncoveredFiles ! i) = Resolved None"
    unfolding assms(2) start_task_def test_extensions_def Let_def by simp
  with assms(1) have start: "tasks ?init ! i = Resolved None"
    by (simp add: gt_init_def)
  have len': "length (tasks (gt_run P s st')) = length (tasks st')" for s st'
    by (induction s arbitrary: st') (auto simp: gt_step_def split: prod.splits)
  have a: "tasks st ! i = Resolved None"
    unfolding assms(4) using gt_run_settled [OF len start] by blast
  have "(i, c) \<notin> set (trace st)" for c
  proof -
    have "(i, c) \<in> set (trace st) \<longleftrightarrow> (i, c) \<in> set (trace ?init)"
      unfolding assms(4) using gt_run_settled [OF len start] by blast
    then show ?thesis by (simp add: gt_init_def)
  qed
  then have b: "\<forall>c. (i, c) \<notin> set (trace st)" by blast
  have c: "gt_run P sched ?init = gt_run P (filter (\<lambda>j. j \<noteq> i) sched) ?init"
    using gt_run_settled [OF len start] by blast
  from len len' [of sched ?init] assms(4) have "i < length (tasks st)" by simp
  from written_split [OF this a] a b c show ?thesis
    by (simp add: generateTests_def)
qed

theorem generateTests_skips_other_extensions_witness:
  "(1::nat) < length [''src/App.tsx'', ''README.md''] \<and>
   extname posix (if isAbsolute posix ''README.md'' then ''README.md'' else join posix [''/proj'', ''README.md''])
     \<notin> set [''.tsx'', ''.jsx'', ''.js'', ''.ts''] \<and>
   tasks (gt_run posix [1, 0, 0, 1, 0] (gt_init posix ''/proj'' [''src/App.tsx'', ''README.md''] example_fs)) ! 1
     = Resolved None \<and>
   (\<forall>c. (1, c) \<notin> set (trace (gt_run posix [1, 0, 0, 1, 0]
       (gt_init posix ''/proj'' [''src/App.tsx'', ''README.md''] example_fs))))"
proof -
  have h1: "(1::nat) < length [''src/App.tsx'', ''README.md'']" by simp
  have h2: "''README.md'' = [''src/App.tsx'', ''README.md''] ! 1" by simp
  have h3: "extname posix (if isAbsolute posix ''README.md'' then ''README.md'' else join posix [''/proj'', ''README.md''])
     \<notin> set [''.tsx'', ''.jsx'', ''.js'', ''.ts'']" by code_simp
  from generateTests_skips_other_extensions [OF h1 h2 h3 refl, of "[1, 0, 0, 1, 0]" example_fs] h1 h3
  show ?thesis by blast
qed

section \<open>Properties of setupVitest\<close>


lemma ensureDir_absent: "ensureDir P d fs = Inr fs' \<Longrightarrow> fs p = None \<Longrightarrow> fs' p = None \<or> fs' p = Some Dir"
  by (auto simp: ensureDir_def Let_def split: list.splits)











section \<open>Properties of profileTests\<close>












section \<open>Properties of computeDiff and generateDiffSummary\<close>

lemma set_unique_keys: "set (unique_keys ks) = set ks"
  by (induction ks rule: unique_keys.induct) auto

lemma distinct_unique_keys: "distinct (unique_keys ks)"
  by (induction ks rule: unique_keys.induct) (auto simp: set_unique_keys)

lemma sum_values_sum_list: "sum_values obj = sum_list (map snd obj)"
proof -
  have "foldl (\<lambda>a b. a + b) a xs = a + sum_list xs" for a :: int and xs
    by (induction xs arbitrary: a) auto
  then show ?thesis by (simp add: sum_values_def)
qed

lemma computeDiff_keys:
  "distinct (map fst (computeDiff base current))"
  "set (map fst (computeDiff base current)) = fst ` set base \<union> fst ` set current"
  by (simp_all add: computeDiff_def Let_def comp_def distinct_unique_keys set_unique_keys)

lemma computeDiff_statements:
  assumes "(f, d) \<in> set (computeDiff base current)"
  shows "baseStatements d = sum_list (map snd (statements_of base f))"
    and "currentStatements d = sum_list (map snd (statements_of current f))"
    and "statementChange d = currentStatements d - baseStatements d"
  using assms by (auto simp: computeDiff_def Let_def sum_values_sum_list)

lemma diff_counts_eq:
  "diff_counts ds (i, d, t) =
     (i + length (filter (\<lambda>x. statementChange x > 0) ds),
      d + length (filter (\<lambda>x. statementChange x < 0) ds),
      t + sum_list (map statementChange ds))"
  by (induction ds arbitrary: i d t) auto

lemma generateDiffSummary_counts:
  "totalFiles (generateDiffSummary diff) = length diff"
  "improvedFiles (generateDiffSummary diff) = length (filter (\<lambda>(f, d). statementChange d > 0) diff)"
  "degradedFiles (generateDiffSummary diff) = length (filter (\<lambda>(f, d). statementChange d < 0) diff)"
  "unchangedFiles (generateDiffSummary diff) =
     int (totalFiles (generateDiffSummary diff)) - int (improvedFiles (generateDiffSummary diff))
       - int (degradedFiles (generateDiffSummary diff))"
  "totalStatementChange (generateDiffSummary diff) = sum_list (map (\<lambda>(f, d). statementChange d) diff)"
  by (simp_all add: generateDiffSummary_def diff_counts_eq filter_map comp_def case_prod_unfold)

text \<open>
  Claim C4 says that \<open>baseBranches\<close>, \<open>currentBranches\<close> and \<open>branchChange\<close> are the sums of
  the branch hit counts and their difference, as for statements. The code computes them
  otherwise. On a base with one branch of hit counts \<open>[1, 0]\<close> and a current map where
  the same branch has hit counts \<open>[2, 1]\<close>, the sums are 1 and 3 and their difference is
  2, while \<open>computeDiff\<close> gives the strings \<open>01,0\<close> and \<open>02,1\<close> and the difference \<open>NaN\<close>.
  The statement fields and the summary are as the claim says (lemmas
  \<open>computeDiff_keys\<close>, \<open>computeDiff_statements\<close> and \<open>generateDiffSummary_counts\<close>).
\<close>

theorem computeDiff_branch_sums_are_strings:
  "computeDiff example_base example_current =
     [(''src/a.ts'', \<lparr>baseStatements = 1, currentStatements = 3, statementChange = 2,
                       baseBranches = JsString ''01,0'', currentBranches = JsString ''02,1'',
                       branchChange = JsNaN\<rparr>)] \<and>
   sum_list (concat (map snd (branches_of example_base ''src/a.ts''))) = 1 \<and>
   sum_list (concat (map snd (branches_of example_current ''src/a.ts''))) = 3"
  by code_simp

section \<open>Properties of loadPlugins\<close>









section \<open>Properties of generateAITests\<close>








section \<open>Properties of the handlers\<close>













end
